theory Spec2Isabelle
  imports Complex_Main "HOL-Library.Sublist"
begin

section \<open>JavaScript helpers used by the components\<close>

text \<open>
  \<open>String.prototype.includes\<close>: the needle occurs as a contiguous run of characters.
  \<open>String.prototype.startsWith\<close> is \<^const>\<open>prefix\<close> with the needle first.
\<close>

fun str_includes :: "string \<Rightarrow> string \<Rightarrow> bool" where
  "str_includes [] needle = (needle = [])"
| "str_includes (c # cs) needle = (prefix needle (c # cs) \<or> str_includes cs needle)"

text \<open>\<open>Array.prototype.find\<close> and \<open>findIndex\<close>: the first element (index) that satisfies
  the predicate, \<open>undefined\<close> (\<open>-1\<close>) when there is none.\<close>

fun find_first :: "('a \<Rightarrow> bool) \<Rightarrow> 'a list \<Rightarrow> 'a option" where
  "find_first p [] = None"
| "find_first p (x # xs) = (if p x then Some x else find_first p xs)"

fun findIndex :: "('a \<Rightarrow> bool) \<Rightarrow> 'a list \<Rightarrow> nat option" where
  "findIndex p [] = None"
| "findIndex p (x # xs) =
     (if p x then Some 0 else (case findIndex p xs of None \<Rightarrow> None | Some i \<Rightarrow> Some (Suc i)))"

text \<open>\<open>xs.map((item, index) => ...)\<close>: map with the position of each element.\<close>

definition map_index :: "(nat \<Rightarrow> 'a \<Rightarrow> 'b) \<Rightarrow> 'a list \<Rightarrow> 'b list" where
  "map_index f xs = map (\<lambda>(index, item). f index item) (enumerate 0 xs)"

record repository =
  repo_id :: string
  repo_name :: string
  repo_full_name :: string
  repo_language :: "string option"

section \<open>Version scan (ScanUpdatesModal)\<close>

definition technologyVersions :: "(string \<times> string list) list" where
  "technologyVersions =
    [(''Java'', [''21.0.2'', ''21.0.1'', ''21.0.0'', ''17.0.9'', ''17.0.8'', ''17.0.7'', ''17.0.6'',
                ''17.0.5'', ''11.0.21'', ''11.0.20'', ''11.0.19'', ''8u392'', ''8u382'', ''8u372'']),
     (''Angular'', [''18'', ''17'', ''16'', ''15'']),
     (''Python'', [''3.12'', ''3.11'', ''3.10'', ''3.9'']),
     (''TypeScript'', [''5.3'', ''5.2'', ''5.1'', ''5.0'', ''4.9'']),
     (''Node.js'', [''20'', ''18'', ''16'', ''14'']),
     (''React'', [''18'', ''17'', ''16'']),
     (''Vue.js'', [''3.4'', ''3.3'', ''3.2'']),
     (''Next.js'', [''14'', ''13'', ''12'']),
     (''Nuxt'', [''3.8'', ''3.7'', ''3.6'']),
     (''Express'', [''4.18'', ''4.17'']),
     (''NestJS'', [''10'', ''9'', ''8'']),
     (''Django'', [''4.2'', ''4.1'', ''3.2'']),
     (''Flask'', [''2.3'', ''2.2'', ''2.1'']),
     (''Spring Boot'', [''3.2'', ''3.1'', ''3.0'', ''2.7'']),
     (''.NET'', [''8.0'', ''7.0'', ''6.0'']),
     (''Go'', [''1.21'', ''1.20'', ''1.19'']),
     (''Rust'', [''1.75'', ''1.74'', ''1.73'']),
     (''PHP'', [''8.3'', ''8.2'', ''8.1'', ''8.0'']),
     (''Laravel'', [''10'', ''9'', ''8'']),
     (''Ruby'', [''3.2'', ''3.1'', ''3.0'']),
     (''Ruby on Rails'', [''7.1'', ''7.0'', ''6.1''])]"

definition relevantTechnologies :: "string list" where
  "relevantTechnologies = [''Java'', ''Angular'', ''Python'', ''TypeScript'', ''Node.js'', ''React'']"

text \<open>\<open>technologyVersions[tech] || []\<close> and \<open>availableVersions[0] || ""\<close>.\<close>

definition availableVersionsOf :: "string \<Rightarrow> string list" where
  "availableVersionsOf tech = (case map_of technologyVersions tech of None \<Rightarrow> [] | Some vs \<Rightarrow> vs)"

definition latestVersionOf :: "string list \<Rightarrow> string" where
  "latestVersionOf vs = (case vs of [] \<Rightarrow> [] | v # _ \<Rightarrow> v)"

record technology_entry =
  tech_name :: string
  currentVersion :: "string option"
  availableVersions :: "string list"
  latestVersion :: string
  needsUpdate :: bool

record RepositoryUpdate =
  ru_repository :: repository
  technologies :: "technology_entry list"
  ru_isScanning :: bool
  scanned :: bool

record upgrade_result =
  ur_repository :: string
  ur_repositoryId :: string
  ur_platform :: string
  ur_technology :: string
  ur_currentVersion :: string
  ur_targetVersion :: string
  ur_status :: string
  ur_priority :: string

definition initializeScan :: "repository list \<Rightarrow> RepositoryUpdate list" where
  "initializeScan repositories =
     map (\<lambda>repo. \<lparr>ru_repository = repo,
                   technologies = map (\<lambda>tech. \<lparr>tech_name = tech, currentVersion = None,
                       availableVersions = availableVersionsOf tech,
                       latestVersion = latestVersionOf (availableVersionsOf tech),
                       needsUpdate = False\<rparr>) relevantTechnologies,
                   ru_isScanning = False, scanned = False\<rparr>) repositories"

text \<open>
  The answer of \<open>sqlite.functions.invoke('detect-current-version', ...)\<close>: the call throws,
  or it returns \<open>{ data, error }\<close> where \<open>data\<close> may be missing and carries \<open>success\<close>
  and a \<open>currentVersion\<close> that may be \<open>null\<close>.
\<close>

record detect_data =
  det_success :: bool
  det_currentVersion :: "string option"

datatype invoke_result = InvokeThrew | InvokeReturned "detect_data option" bool

text \<open>The guard \<open>!error && data?.success && data.currentVersion\<close>: a version counts as
  detected when there is no error, the call succeeded and the version is a non-empty string.\<close>

fun detectedVersion :: "invoke_result \<Rightarrow> string option" where
  "detectedVersion InvokeThrew = None"
| "detectedVersion (InvokeReturned None err) = None"
| "detectedVersion (InvokeReturned (Some d) err) =
     (if \<not> err \<and> det_success d then
        (case det_currentVersion d of None \<Rightarrow> None | Some v \<Rightarrow> if v = [] then None else Some v)
      else None)"

definition computeNeedsUpdate :: "string \<Rightarrow> string \<Rightarrow> bool" where
  "computeNeedsUpdate technology cv =
     (let availableVersions = availableVersionsOf technology;
          latestVersion = latestVersionOf availableVersions
      in cv \<noteq> latestVersion \<and> cv \<in> set availableVersions)"

definition updateTechnology :: "string \<Rightarrow> string \<Rightarrow> bool \<Rightarrow> technology_entry \<Rightarrow> technology_entry" where
  "updateTechnology technology cv nu tech =
     (if tech_name tech = technology then tech\<lparr>currentVersion := Some cv, needsUpdate := nu\<rparr> else tech)"

definition scanTechnology :: "invoke_result \<Rightarrow> nat \<Rightarrow> string \<Rightarrow> RepositoryUpdate list \<Rightarrow> RepositoryUpdate list" where
  "scanTechnology answer repoIndex technology prev =
     (case detectedVersion answer of
        None \<Rightarrow> prev
      | Some cv \<Rightarrow>
          map_index (\<lambda>index item.
            if index = repoIndex
            then item\<lparr>technologies := map (updateTechnology technology cv (computeNeedsUpdate technology cv)) (technologies item)\<rparr>
            else item) prev)"

text \<open>The inner loop \<open>for (const technology of relevantTechnologies)\<close>; \<open>detect\<close> is the
  answer of the detection service to the call made for this repository and technology.\<close>

fun scanTechnologies :: "(nat \<Rightarrow> string \<Rightarrow> string \<Rightarrow> invoke_result) \<Rightarrow> nat \<Rightarrow> repository \<Rightarrow> string list
    \<Rightarrow> RepositoryUpdate list \<Rightarrow> RepositoryUpdate list" where
  "scanTechnologies detect repoIndex repo [] st = st"
| "scanTechnologies detect repoIndex repo (technology # rest) st =
     scanTechnologies detect repoIndex repo rest
       (scanTechnology (detect repoIndex (repo_id repo) technology) repoIndex technology st)"

definition markScanning :: "nat \<Rightarrow> RepositoryUpdate list \<Rightarrow> RepositoryUpdate list" where
  "markScanning repoIndex prev =
     map_index (\<lambda>index item. if index = repoIndex then item\<lparr>ru_isScanning := True\<rparr> else item) prev"

definition markScanned :: "nat \<Rightarrow> RepositoryUpdate list \<Rightarrow> RepositoryUpdate list" where
  "markScanned repoIndex prev =
     map_index (\<lambda>index item. if index = repoIndex then item\<lparr>ru_isScanning := False, scanned := True\<rparr> else item) prev"

text \<open>The outer loop \<open>for (let repoIndex = 0; repoIndex < repositories.length; repoIndex++)\<close>,
  started at \<open>repoIndex\<close> with the repositories still to scan.\<close>

fun scanFrom :: "(nat \<Rightarrow> string \<Rightarrow> string \<Rightarrow> invoke_result) \<Rightarrow> nat \<Rightarrow> repository list
    \<Rightarrow> RepositoryUpdate list \<Rightarrow> RepositoryUpdate list" where
  "scanFrom detect repoIndex [] st = st"
| "scanFrom detect repoIndex (repo # rest) st =
     scanFrom detect (Suc repoIndex) rest
       (markScanned repoIndex
          (scanTechnologies detect repoIndex repo relevantTechnologies (markScanning repoIndex st)))"

definition getPriorityForTechnology :: "string \<Rightarrow> string" where
  "getPriorityForTechnology technology =
     (if technology \<in> set [''Java'', ''Spring Boot'', ''.NET''] then ''high''
      else if technology \<in> set [''Angular'', ''React'', ''Vue.js'', ''Next.js''] then ''medium''
      else ''low'')"

text \<open>The results handed to the parent: every technology flagged \<open>needsUpdate\<close> with a
  truthy \<open>currentVersion\<close>, in repository and technology order.\<close>

definition upgradeResultsOf :: "RepositoryUpdate list \<Rightarrow> upgrade_result list" where
  "upgradeResultsOf repositoryUpdates =
     concat (map (\<lambda>repoUpdate.
       map (\<lambda>tech. \<lparr>ur_repository = repo_name (ru_repository repoUpdate),
                     ur_repositoryId = repo_id (ru_repository repoUpdate),
                     ur_platform = ''GitHub'',
                     ur_technology = tech_name tech,
                     ur_currentVersion = (case currentVersion tech of None \<Rightarrow> [] | Some v \<Rightarrow> v),
                     ur_targetVersion = latestVersion tech,
                     ur_status = ''pending'',
                     ur_priority = getPriorityForTechnology (tech_name tech)\<rparr>)
           (filter (\<lambda>tech. needsUpdate tech \<and> (case currentVersion tech of None \<Rightarrow> False | Some v \<Rightarrow> v \<noteq> []))
                   (technologies repoUpdate))) repositoryUpdates)"

text \<open>
  \<open>scanAllRepositories\<close>, run by a click in a render whose state was \<open>repositoryUpdates\<close>
  and \<open>isScanning\<close>. The state updates are functional (\<open>setRepositoryUpdates(prev => ...)\<close>)
  and build on one another; the results for the parent are read from the
  \<open>repositoryUpdates\<close> of the render that created the handler, as the closure has it.
  The result is the new state, or \<open>None\<close> for the early return, and the list passed
  to \<open>onScanResults\<close>.
\<close>

definition scanAllRepositories :: "(nat \<Rightarrow> string \<Rightarrow> string \<Rightarrow> invoke_result) \<Rightarrow> repository list
    \<Rightarrow> bool \<Rightarrow> RepositoryUpdate list \<Rightarrow> (RepositoryUpdate list \<times> upgrade_result list) option" where
  "scanAllRepositories detect repositories isScanning repositoryUpdates =
     (if isScanning then None
      else Some (scanFrom detect 0 repositories repositoryUpdates, upgradeResultsOf repositoryUpdates))"

section \<open>Vulnerabilities page\<close>

record vulnerability =
  vuln_id :: string
  vuln_title :: string
  severity :: string
  cvss :: real
  vuln_repository :: string
  repositoryId :: string
  platform :: string
  package :: string
  version :: string
  fixedIn :: string
  vuln_status :: string
  discoveredDate :: string
  vuln_description :: string

record error_dialog =
  dialog_open :: bool
  dialog_error :: string
  dialog_repositoryName :: "string option"

text \<open>What \<open>toast\<close> was asked to show: the "Creating Fix" notice for a package, and the
  "Fix Pull Request Created" notice with the pull request number, the package and the
  pull request URL of the answer.\<close>

datatype toast =
    ToastCreatingFix string
  | ToastFixCreated "nat option" string "string option"

text \<open>The state of the component that the handlers read and write.\<close>

record vulnerabilities_state =
  scannedVulnerabilities :: "vulnerability list"
  isFixingVulnerability :: "string option"
  errorDialog :: error_dialog
  toasts :: "toast list"

text \<open>The answer of \<open>apiClient.fixVulnerability\<close>: the promise rejects with an error
  message, or resolves to \<open>{ data, error }\<close>.\<close>

record fix_data =
  fix_success :: bool
  pullRequestUrl :: "string option"
  pullRequestNumber :: "nat option"

datatype fix_response = FixThrew string | FixReturned "fix_data option" "string option"

text \<open>\<open>x || fallback\<close> on an optional string: the fallback replaces \<open>undefined\<close> and \<open>""\<close>.\<close>

definition or_else :: "string option \<Rightarrow> string \<Rightarrow> string" where
  "or_else x fallback = (case x of None \<Rightarrow> fallback | Some v \<Rightarrow> if v = [] then fallback else v)"

text \<open>A number as a template string prints it.\<close>

fun show_nat :: "nat \<Rightarrow> string" where
  "show_nat n =
     (if n < 10 then [''0123456789'' ! n]
      else show_nat (n div 10) @ [''0123456789'' ! (n mod 10)])"

declare show_nat.simps [simp del]

text \<open>
  \<open>ApiClient.request\<close>, as \<open>fixVulnerability\<close> uses it. The \<open>fetch\<close> rejects, or the
  response is not \<open>ok\<close> and the client throws an error whose message is the \<open>detail\<close> of
  the body or, without one, \<open>HTTP error! status: N\<close>, or the response is \<open>ok\<close> and its
  body \<open>{ data, error }\<close> is returned.
\<close>

datatype api_reply =
    FetchRejected string
  | ReplyNotOk nat "string option"
  | ReplyOk "fix_data option" "string option"

definition requestFailure :: "nat \<Rightarrow> string option \<Rightarrow> string" where
  "requestFailure status detail = or_else detail (''HTTP error! status: '' @ show_nat status)"

fun fixVulnerability :: "api_reply \<Rightarrow> fix_response" where
  "fixVulnerability (FetchRejected message) = FixThrew message"
| "fixVulnerability (ReplyNotOk status detail) = FixThrew (requestFailure status detail)"
| "fixVulnerability (ReplyOk d err) = FixReturned d err"

text \<open>The \<open>try\<close> block up to the status update: \<open>Inl\<close> is the message of the error
  that reaches \<open>catch\<close>, \<open>Inr\<close> the data of a successful answer.\<close>

fun fixOutcome :: "fix_response \<Rightarrow> string + fix_data" where
  "fixOutcome (FixThrew message) = Inl message"
| "fixOutcome (FixReturned None err) = Inl (or_else err ''Failed to fix vulnerability'')"
| "fixOutcome (FixReturned (Some d) err) =
     (if fix_success d then Inr d else Inl (or_else err ''Failed to fix vulnerability''))"

definition handleScanResults :: "vulnerability list \<Rightarrow> vulnerabilities_state \<Rightarrow> vulnerabilities_state" where
  "handleScanResults results s = s\<lparr>scannedVulnerabilities := results\<rparr>"

text \<open>\<open>handleFixVulnerability\<close> is asynchronous. Its first part runs at the click, up to
  the \<open>await\<close>; the second part runs when the answer arrives, on the state of that moment
  (the status update is the functional \<open>setScannedVulnerabilities(prev => ...)\<close>).\<close>

definition handleFixVulnerability_begin :: "vulnerability \<Rightarrow> vulnerabilities_state \<Rightarrow> vulnerabilities_state" where
  "handleFixVulnerability_begin vuln s =
     s\<lparr>isFixingVulnerability := Some (vuln_id vuln),
       toasts := toasts s @ [ToastCreatingFix (package vuln)]\<rparr>"

definition markInProgress :: "vulnerability \<Rightarrow> vulnerability list \<Rightarrow> vulnerability list" where
  "markInProgress vuln prev =
     map (\<lambda>v. if vuln_id v = vuln_id vuln then v\<lparr>vuln_status := ''in-progress''\<rparr> else v) prev"

definition handleFixVulnerability_settle ::
    "repository list \<Rightarrow> vulnerability \<Rightarrow> fix_response \<Rightarrow> vulnerabilities_state \<Rightarrow> vulnerabilities_state" where
  "handleFixVulnerability_settle repositories vuln response s =
     (case fixOutcome response of
        Inr d \<Rightarrow>
          s\<lparr>scannedVulnerabilities := markInProgress vuln (scannedVulnerabilities s),
            toasts := toasts s @ [ToastFixCreated (pullRequestNumber d) (package vuln) (pullRequestUrl d)],
            isFixingVulnerability := None\<rparr>
      | Inl message \<Rightarrow>
          s\<lparr>errorDialog := \<lparr>dialog_open = True, dialog_error = message,
                dialog_repositoryName =
                  map_option repo_full_name (find_first (\<lambda>r. repo_id r = repositoryId vuln) repositories)\<rparr>,
            isFixingVulnerability := None\<rparr>)"

definition handleFixVulnerability ::
    "repository list \<Rightarrow> vulnerability \<Rightarrow> fix_response \<Rightarrow> vulnerabilities_state \<Rightarrow> vulnerabilities_state" where
  "handleFixVulnerability repositories vuln response s =
     handleFixVulnerability_settle repositories vuln response (handleFixVulnerability_begin vuln s)"

text \<open>The "Fix Now" button of one row: rendered only when \<open>vuln.status === 'open'\<close>,
  disabled when \<open>isFixingVulnerability === vuln.id\<close>. A click runs the handler's first
  part only on an enabled button.\<close>

datatype fix_button = NotRendered | Disabled | Enabled

definition fixButton :: "vulnerabilities_state \<Rightarrow> vulnerability \<Rightarrow> fix_button" where
  "fixButton s vuln =
     (if vuln_status vuln = ''open''
      then (if isFixingVulnerability s = Some (vuln_id vuln) then Disabled else Enabled)
      else NotRendered)"

definition clickFix :: "vulnerability \<Rightarrow> vulnerabilities_state \<Rightarrow> vulnerabilities_state option" where
  "clickFix vuln s = (if fixButton s vuln = Enabled then Some (handleFixVulnerability_begin vuln s) else None)"

subsection \<open>ErrorDialog: getErrorDetails\<close>

record error_details =
  details_title :: string
  details_description :: string
  solutions :: "string list"
  links :: "(string \<times> string option) list"

text \<open>\<open>s.split('/')\<close> and the segment \<open>[1]\<close> as it prints in a template string.\<close>

fun split_on :: "char \<Rightarrow> string \<Rightarrow> string list" where
  "split_on sep [] = [[]]"
| "split_on sep (c # cs) =
     (if c = sep then [] # split_on sep cs
      else (case split_on sep cs of [] \<Rightarrow> [[c]] | w # ws \<Rightarrow> (c # w) # ws))"

definition second_segment :: "string \<Rightarrow> string" where
  "second_segment name = (case split_on CHR ''/'' name of _ # w # _ \<Rightarrow> w | _ \<Rightarrow> ''undefined'')"

text \<open>A name between double quotes, as the descriptions print it.\<close>

definition quoted :: "string \<Rightarrow> string" where
  "quoted name = CHR 0x22 # name @ [CHR 0x22]"

definition isExternalRepo :: "string option \<Rightarrow> bool" where
  "isExternalRepo repositoryName =
     (case repositoryName of None \<Rightarrow> False
      | Some name \<Rightarrow> name \<noteq> [] \<and> \<not> prefix ''KetsHacathons/'' name)"

definition repo_url :: "string option \<Rightarrow> string \<Rightarrow> string option" where
  "repo_url repositoryName path =
     (case repositoryName of None \<Rightarrow> None
      | Some name \<Rightarrow> if name = [] then None else Some (''https://github.com/'' @ name @ path))"

definition getErrorDetails :: "string \<Rightarrow> string option \<Rightarrow> error_details" where
  "getErrorDetails err repositoryName =
     (let name = (case repositoryName of None \<Rightarrow> ''undefined'' | Some n \<Rightarrow> n) in
      if str_includes err ''Failed to create branch: Forbidden''
         \<or> str_includes err ''Resource not accessible by personal access token'' then
        (if isExternalRepo repositoryName then
           \<lparr>details_title = ''Cannot Fix External Repository'',
            details_description = ''You don't have write access to '' @ quoted name
              @ ''. You can only create vulnerability fixes for repositories you own or have collaborator access to.'',
            solutions = [''You can only fix vulnerabilities in your own repositories'',
                         ''Fork this repository to your account if you want to create a fix'',
                         ''Contact the repository owner to report the vulnerability'',
                         ''Focus on fixing vulnerabilities in repositories you control''],
            links = [(''Fork '' @ second_segment name @ '' Repository'', repo_url repositoryName ''/fork''),
                     (''Report Security Issue'', repo_url repositoryName ''/security/advisories/new'')]\<rparr>
         else
           \<lparr>details_title = ''GitHub Token Permissions Error'',
            details_description = ''Your GitHub token doesn't have sufficient permissions to create branches and pull requests in your own repository.'',
            solutions = [''Update your GitHub token with write permissions to Contents and Pull Requests'',
                         ''Ensure your token hasn't expired'',
                         ''For fine-grained tokens: grant 'Contents: Write' and 'Pull requests: Write' permissions'',
                         ''For classic tokens: ensure 'repo' scope is selected''],
            links = [(''Update GitHub Token in Supabase'',
                        Some ''https://supabase.com/dashboard/project/hbxbmrffzlmkuahhsfwx/settings/functions''),
                     (''Create New GitHub Token'', Some ''https://github.com/settings/tokens'')]\<rparr>)
      else if str_includes err ''Failed to create pull request: Unprocessable Entity'' then
        \<lparr>details_title = ''Pull Request Creation Failed'',
         details_description = ''Unable to create the pull request. This usually happens when there are conflicts or duplicate branches.'',
         solutions = [''A branch with this name may already exist - check your repository'',
                      ''Delete any existing fix branches and try again'',
                      ''Ensure your repository allows pull requests from branches'',
                      ''Verify your GitHub token has pull request write permissions''],
         links = [(''View Repository Branches'', repo_url repositoryName ''/branches'')]\<rparr>
      else if str_includes err ''Resource not accessible by personal access token'' then
        \<lparr>details_title = ''Repository Access Denied'',
         details_description =
           (if isExternalRepo repositoryName
            then ''You don't have access to modify '' @ quoted name
              @ ''. This is an external repository that you cannot directly fix.''
            else ''You don't have access to this repository or the token permissions are insufficient.''),
         solutions =
           (if isExternalRepo repositoryName
            then [''You can only create fixes for repositories you own or collaborate on'',
                  ''Fork the repository to your account to work on a fix'',
                  ''Report the vulnerability to the repository maintainers'',
                  ''Focus on vulnerabilities in your own repositories'']
            else [''Ensure you own the repository or are a collaborator'',
                  ''Use a fine-grained token with specific repository access'',
                  ''Check that your GitHub token hasn't been revoked'']),
         links =
           (if isExternalRepo repositoryName
            then [(''Fork '' @ second_segment name, repo_url repositoryName ''/fork'')]
            else [])\<rparr>
      else
        \<lparr>details_title = ''Vulnerability Fix Failed'',
         details_description = ''An unexpected error occurred while trying to create the vulnerability fix.'',
         solutions = [''Check your internet connection'',
                      ''Verify you have write access to the repository'',
                      ''Ensure your GitHub token is valid and has proper permissions'',
                      ''Try again in a few minutes''],
         links = []\<rparr>)"

section \<open>Security scan (SecurityScanModal)\<close>

record scan_progress =
  sp_repositoryId :: string
  sp_repositoryName :: string
  sp_isScanning :: bool
  sp_isComplete :: bool
  vulnerabilitiesFound :: nat

text \<open>The answer of \<open>apiClient.runSecurityScan\<close>: the promise rejects, or resolves to an
  object whose \<open>data\<close> may be missing and carries \<open>success\<close> and, possibly, the list of
  vulnerabilities.\<close>

record scan_data =
  scan_success :: bool
  scan_vulnerabilities :: "vulnerability list option"

datatype scan_response = ScanThrew | ScanReturned "scan_data option"

record scan_run =
  allResults :: "vulnerability list"
  scanProgress :: "scan_progress list"
  completedScans :: nat

text \<open>\<open>result.data?.success && result.data.vulnerabilities\<close>: the vulnerabilities that enter
  the batch, each with \<open>repository\<close>, \<open>repositoryId\<close> and \<open>platform\<close> overwritten.\<close>

fun reportedVulnerabilities :: "repository \<Rightarrow> scan_response \<Rightarrow> vulnerability list option" where
  "reportedVulnerabilities repo ScanThrew = None"
| "reportedVulnerabilities repo (ScanReturned None) = None"
| "reportedVulnerabilities repo (ScanReturned (Some d)) =
     (if scan_success d then
        (case scan_vulnerabilities d of None \<Rightarrow> None
         | Some vs \<Rightarrow> Some (map (\<lambda>vuln. vuln\<lparr>vuln_repository := repo_name repo, repositoryId := repo_id repo,
                                              platform := ''GitHub''\<rparr>) vs))
      else None)"

definition markProgress :: "string \<Rightarrow> (scan_progress \<Rightarrow> scan_progress) \<Rightarrow> scan_progress list \<Rightarrow> scan_progress list" where
  "markProgress rid f prev = map (\<lambda>item. if sp_repositoryId item = rid then f item else item) prev"

text \<open>One pass of \<open>for (const repositoryId of selectedRepositories)\<close>; \<open>answer\<close> is what the
  scan service answers to the call of this pass, when the call is made.\<close>

definition scanRepository :: "repository list \<Rightarrow> scan_response \<Rightarrow> string \<Rightarrow> scan_run \<Rightarrow> scan_run" where
  "scanRepository repositories answer rid run =
     (case find_first (\<lambda>r. repo_id r = rid) repositories of
        None \<Rightarrow> run
      | Some repo \<Rightarrow>
          (let started = markProgress rid (\<lambda>item. item\<lparr>sp_isScanning := True\<rparr>) (scanProgress run) in
           case reportedVulnerabilities repo answer of
             Some repoVulnerabilities \<Rightarrow>
               \<lparr>allResults = allResults run @ repoVulnerabilities,
                scanProgress = markProgress rid
                  (\<lambda>item. item\<lparr>sp_isScanning := False, sp_isComplete := True,
                                 vulnerabilitiesFound := length repoVulnerabilities\<rparr>) started,
                completedScans = Suc (completedScans run)\<rparr>
           | None \<Rightarrow>
               \<lparr>allResults = allResults run,
                scanProgress = markProgress rid
                  (\<lambda>item. item\<lparr>sp_isScanning := False, sp_isComplete := True, vulnerabilitiesFound := 0\<rparr>) started,
                completedScans = Suc (completedScans run)\<rparr>))"

fun scanSelected :: "repository list \<Rightarrow> (nat \<Rightarrow> string \<Rightarrow> scan_response) \<Rightarrow> nat \<Rightarrow> string list \<Rightarrow> scan_run \<Rightarrow> scan_run" where
  "scanSelected repositories scanner k [] run = run"
| "scanSelected repositories scanner k (rid # rest) run =
     scanSelected repositories scanner (Suc k) rest (scanRepository repositories (scanner k rid) rid run)"

definition initialProgress :: "repository list \<Rightarrow> string list \<Rightarrow> scan_progress list" where
  "initialProgress repositories selectedRepositories =
     map (\<lambda>repoId. \<lparr>sp_repositoryId = repoId,
                      sp_repositoryName = (case find_first (\<lambda>r. repo_id r = repoId) repositories of
                                             None \<Rightarrow> ''Unknown''
                                           | Some repo \<Rightarrow> if repo_name repo = [] then ''Unknown'' else repo_name repo),
                      sp_isScanning = False, sp_isComplete = False, vulnerabilitiesFound = 0\<rparr>)
         selectedRepositories"

text \<open>\<open>startSecurityScan\<close>: nothing happens on an empty selection; otherwise the run of the
  loop, whose \<open>allResults\<close> go to \<open>onScanResults\<close>, which on the Vulnerabilities page is
  \<open>handleScanResults\<close>.\<close>

definition startSecurityScan :: "repository list \<Rightarrow> (nat \<Rightarrow> string \<Rightarrow> scan_response) \<Rightarrow> string list \<Rightarrow> scan_run option" where
  "startSecurityScan repositories scanner selectedRepositories =
     (if selectedRepositories = [] then None
      else Some (scanSelected repositories scanner 0 selectedRepositories
                   \<lparr>allResults = [], scanProgress = initialProgress repositories selectedRepositories,
                    completedScans = 0\<rparr>))"

definition securityScanOnPage :: "repository list \<Rightarrow> (nat \<Rightarrow> string \<Rightarrow> scan_response) \<Rightarrow> string list
    \<Rightarrow> vulnerabilities_state \<Rightarrow> vulnerabilities_state" where
  "securityScanOnPage repositories scanner selectedRepositories s =
     (case startSecurityScan repositories scanner selectedRepositories of
        None \<Rightarrow> s
      | Some run \<Rightarrow> handleScanResults (allResults run) s)"

section \<open>Recent activity (useRecentActivity)\<close>

datatype activity_type = Version | Security | Coverage | General

datatype activity_status = StatusSuccess | StatusWarning | StatusError | StatusPending

datatype activity_source = Database | Local

record activity_item =
  act_id :: string
  act_type :: activity_type
  act_title :: string
  act_description :: string
  timestamp :: string
  act_status :: activity_status
  act_repository :: "string option"
  repository_id :: "string option"
  source :: "activity_source option"

record activity_state =
  activities :: "activity_item list"
  loading :: bool
  fetch_error :: "string option"

text \<open>The reducer that removes duplicates: an activity whose id is new is appended; one
  whose id is already there is dropped, unless it comes from the database and the one
  there is local, in which case it takes that one's place.\<close>

definition dedupStep :: "activity_item list \<Rightarrow> activity_item \<Rightarrow> activity_item list" where
  "dedupStep acc activity =
     (case find_first (\<lambda>a. act_id a = act_id activity) acc of
        None \<Rightarrow> acc @ [activity]
      | Some existing \<Rightarrow>
          if source activity = Some Database \<and> source existing = Some Local
          then (case findIndex (\<lambda>a. act_id a = act_id activity) acc of
                  None \<Rightarrow> acc
                | Some index \<Rightarrow> acc[index := activity])
          else acc)"

definition uniqueActivities :: "activity_item list \<Rightarrow> activity_item list" where
  "uniqueActivities allActivities = foldl dedupStep [] allActivities"

text \<open>
  The comparator of the sort. \<open>now\<close> is the value of \<open>Date.now()\<close>, taken as one value for
  the whole sort, and \<open>parseDate\<close> is \<open>new Date(string).getTime()\<close>, \<open>None\<close> for \<open>NaN\<close>
  (an invalid date). The difference of two times is \<open>NaN\<close> when either is.
\<close>

definition timeOf :: "int \<Rightarrow> (string \<Rightarrow> int option) \<Rightarrow> activity_item \<Rightarrow> int option" where
  "timeOf now parseDate a = (if str_includes (timestamp a) ''ago'' then Some now else parseDate (timestamp a))"

definition compareActivities :: "int \<Rightarrow> (string \<Rightarrow> int option) \<Rightarrow> activity_item \<Rightarrow> activity_item \<Rightarrow> int option" where
  "compareActivities now parseDate a b =
     (case (timeOf now parseDate b, timeOf now parseDate a) of
        (Some timeB, Some timeA) \<Rightarrow> Some (timeB - timeA)
      | _ \<Rightarrow> None)"

text \<open>
  \<open>Array.prototype.sort\<close> with a comparator. The sort sees the comparator through
  \<open>SortCompare\<close>, where a \<open>NaN\<close> result counts as \<open>+0\<close>; a negative result puts the first
  argument first, a positive one the second, and the sort is stable. Where the comparator
  orders the elements of the list consistently (each element equal to itself, equality
  symmetric and transitive, before and after opposite and transitive), this fixes the
  result: it is the list sorted stably, computed here by insertion from the right. Where
  it does not, the order is the engine's own: it is \<open>engine\<close>, a parameter.
\<close>

definition sortCompare :: "('a \<Rightarrow> 'a \<Rightarrow> int option) \<Rightarrow> 'a \<Rightarrow> 'a \<Rightarrow> int" where
  "sortCompare comparefn x y = (case comparefn x y of None \<Rightarrow> 0 | Some v \<Rightarrow> v)"

definition consistentOn :: "('a \<Rightarrow> 'a \<Rightarrow> int) \<Rightarrow> 'a list \<Rightarrow> bool" where
  "consistentOn cmp xs =
     list_all (\<lambda>a. list_all (\<lambda>b. list_all (\<lambda>c.
         cmp a a = 0
       \<and> (if cmp a b = 0 then cmp b a = 0 else True)
       \<and> (if cmp a b < 0 then cmp b a > 0 else True)
       \<and> (if cmp a b > 0 then cmp b a < 0 else True)
       \<and> (if cmp a b = 0 \<and> cmp b c = 0 then cmp a c = 0 else True)
       \<and> (if cmp a b < 0 \<and> cmp b c < 0 then cmp a c < 0 else True)
       \<and> (if cmp a b > 0 \<and> cmp b c > 0 then cmp a c > 0 else True)) xs) xs) xs"

fun insert_sorted :: "('a \<Rightarrow> 'a \<Rightarrow> int) \<Rightarrow> 'a \<Rightarrow> 'a list \<Rightarrow> 'a list" where
  "insert_sorted cmp x [] = [x]"
| "insert_sorted cmp x (y # ys) = (if cmp x y \<le> 0 then x # y # ys else y # insert_sorted cmp x ys)"

definition stable_sorted :: "('a \<Rightarrow> 'a \<Rightarrow> int) \<Rightarrow> 'a list \<Rightarrow> 'a list" where
  "stable_sorted cmp xs = foldr (insert_sorted cmp) xs []"

definition js_sort :: "(('a \<Rightarrow> 'a \<Rightarrow> int) \<Rightarrow> 'a list \<Rightarrow> 'a list) \<Rightarrow> ('a \<Rightarrow> 'a \<Rightarrow> int option)
    \<Rightarrow> 'a list \<Rightarrow> 'a list" where
  "js_sort engine comparefn xs =
     (if consistentOn (sortCompare comparefn) xs then stable_sorted (sortCompare comparefn) xs
      else engine (sortCompare comparefn) xs)"

definition sortedActivities :: "((activity_item \<Rightarrow> activity_item \<Rightarrow> int) \<Rightarrow> activity_item list \<Rightarrow> activity_item list)
    \<Rightarrow> int \<Rightarrow> (string \<Rightarrow> int option) \<Rightarrow> activity_item list \<Rightarrow> activity_item list" where
  "sortedActivities engine now parseDate unique =
     take 20 (js_sort engine (compareActivities now parseDate) unique)"

definition sample_activity :: activity_item where
  "sample_activity =
     \<lparr>act_id = ''sample-1'', act_type = General, act_title = ''Welcome to TechMandates'',
      act_description = ''Connect repositories and run scans to see recent activity here'',
      timestamp = ''Just now'', act_status = StatusPending, act_repository = Some ''Getting Started'',
      repository_id = None, source = Some Local\<rparr>"

text \<open>The query for the scan results: it fails (an error is returned and thrown, or the
  call throws), or it returns rows, given here as the activities generated from them.\<close>

datatype query_result = QueryFailed | QueryReturned "activity_item list"

text \<open>\<open>fetchRecentActivity\<close>: \<open>user\<close> is the signed-in user, \<open>persistedActivities\<close> what
  \<open>loadPersistedData\<close> returns. The result is the state after the last \<open>setState\<close>.\<close>

definition fetchRecentActivity :: "((activity_item \<Rightarrow> activity_item \<Rightarrow> int) \<Rightarrow> activity_item list \<Rightarrow> activity_item list)
    \<Rightarrow> int \<Rightarrow> (string \<Rightarrow> int option) \<Rightarrow> string option \<Rightarrow> activity_item list
    \<Rightarrow> query_result \<Rightarrow> activity_state \<Rightarrow> activity_state" where
  "fetchRecentActivity engine now parseDate user persistedActivities answer s =
     (case user of
        None \<Rightarrow> s\<lparr>activities := take 20 persistedActivities, loading := False\<rparr>
      | Some u \<Rightarrow>
          (case answer of
             QueryReturned databaseActivities \<Rightarrow>
               \<lparr>activities = sortedActivities engine now parseDate
                               (uniqueActivities (persistedActivities @ databaseActivities)),
                loading = False, fetch_error = None\<rparr>
           | QueryFailed \<Rightarrow>
               \<lparr>activities = (if length persistedActivities > 0 then take 20 persistedActivities
                               else [sample_activity]),
                loading = False, fetch_error = Some ''Failed to fetch recent activity''\<rparr>))"

text \<open>The entry that the de-duplication keeps for an id: the first one with that id,
  unless that one is local and a database entry with the id follows, which then is kept.
  The ids are kept in the order of their first occurrence.\<close>

definition preferred :: "activity_item list \<Rightarrow> string \<Rightarrow> activity_item option" where
  "preferred xs k =
     (case find_first (\<lambda>a. act_id a = k) xs of
        None \<Rightarrow> None
      | Some first \<Rightarrow>
          if source first = Some Local
          then (case find_first (\<lambda>a. act_id a = k \<and> source a = Some Database) xs of
                  None \<Rightarrow> Some first
                | Some d \<Rightarrow> Some d)
          else Some first)"

definition first_occurrences :: "string list \<Rightarrow> string list" where
  "first_occurrences ks = foldl (\<lambda>seen k. if k \<in> set seen then seen else seen @ [k]) [] ks"


section \<open>Bulk coverage improvement (the improve-coverage function)\<close>

record coverage_repository =
  cr_id :: string
  cr_name :: string
  cr_full_name :: string
  cr_language :: string
  currentCoverage :: nat

record test_file =
  tf_path :: string
  tf_component :: string
  tf_content :: string


text \<open>
  The calls that leave the function, each on a state \<open>'w\<close> of the outside world that the
  call may change. A call either throws (a rejected \<open>fetch\<close>, a body that is no JSON, a
  property read on \<open>undefined\<close>), with the message of the error, or returns.
  \<^item> \<open>fetchRepository\<close>: the request for the repository; \<open>ok\<close> and, read from the body,
    the default branch.
  \<^item> \<open>fetchBaseSha\<close>: the request for the head of the default branch and the reading of
    \<open>object.sha\<close> from its body.
  \<^item> \<open>createBranch\<close>, \<open>createOrUpdateFile\<close>: requests whose answer is not looked at.
  \<^item> \<open>generateTestFiles\<close>: the test files chosen for the repository, from its contents
    and its language.
  \<^item> \<open>createPullRequest\<close>: \<open>None\<close> when the answer is not \<open>ok\<close>, else the URL and number
    read from its body.
  \<^item> \<open>dateNow\<close>: \<open>Date.now()\<close> as it prints; \<open>randomBelow15\<close>:
    \<open>Math.floor(Math.random() * 15)\<close>.
\<close>

datatype 'a attempt = Throws string | Returns 'a

record 'w github =
  fetchRepository :: "string \<Rightarrow> 'w \<Rightarrow> (bool \<times> string) attempt \<times> 'w"
  fetchBaseSha :: "string \<Rightarrow> string \<Rightarrow> 'w \<Rightarrow> string attempt \<times> 'w"
  createBranch :: "string \<Rightarrow> string \<Rightarrow> string \<Rightarrow> 'w \<Rightarrow> unit attempt \<times> 'w"
  generateTestFiles :: "coverage_repository \<Rightarrow> 'w \<Rightarrow> test_file list attempt \<times> 'w"
  createOrUpdateFile :: "string \<Rightarrow> test_file \<Rightarrow> string \<Rightarrow> 'w \<Rightarrow> unit attempt \<times> 'w"
  createPullRequest :: "string \<Rightarrow> string \<Rightarrow> string \<Rightarrow> 'w \<Rightarrow> (string \<times> nat) option attempt \<times> 'w"
  dateNow :: "'w \<Rightarrow> string \<times> 'w"
  randomBelow15 :: "'w \<Rightarrow> nat \<times> 'w"








section \<open>Proof devices and concrete runs\<close>

text \<open>Proof devices for the version scan: what one detection answer, and then the whole
  inner loop, does to a single technology entry and to a single repository item; the
  soundness of the flags (an entry is flagged exactly when the version stored with it is
  in the catalogue and is not the latest); and a concrete run.\<close>

definition scanEntry :: "invoke_result \<Rightarrow> string \<Rightarrow> technology_entry \<Rightarrow> technology_entry" where
  "scanEntry answer technology e =
     (case detectedVersion answer of None \<Rightarrow> e
      | Some cv \<Rightarrow> updateTechnology technology cv (computeNeedsUpdate technology cv) e)"

fun scanEntries :: "(string \<Rightarrow> invoke_result) \<Rightarrow> string list \<Rightarrow> technology_entry \<Rightarrow> technology_entry" where
  "scanEntries answers [] e = e"
| "scanEntries answers (t # ts) e = scanEntries answers ts (scanEntry (answers t) t e)"

definition scanItem :: "(string \<Rightarrow> invoke_result) \<Rightarrow> RepositoryUpdate \<Rightarrow> RepositoryUpdate" where
  "scanItem answers item =
     item\<lparr>technologies := map (scanEntries answers relevantTechnologies) (technologies item),
          ru_isScanning := False, scanned := True\<rparr>"

definition entry_sound :: "technology_entry \<Rightarrow> bool" where
  "entry_sound e \<longleftrightarrow>
     needsUpdate e =
       (case currentVersion e of None \<Rightarrow> False
        | Some v \<Rightarrow> v \<noteq> [] \<and> computeNeedsUpdate (tech_name e) v)"

definition flags_sound :: "RepositoryUpdate list \<Rightarrow> bool" where
  "flags_sound st \<longleftrightarrow> (\<forall>item \<in> set st. \<forall>e \<in> set (technologies item).
      entry_sound e \<and> latestVersion e = latestVersionOf (availableVersionsOf (tech_name e)))"



text \<open>Concrete data for the Vulnerabilities page: a finding as the scanner reports it, a
  state holding a list of findings with nothing in flight, and a successful answer of the
  fix service with pull request 42.\<close>

definition example_vuln :: "string \<Rightarrow> string \<Rightarrow> string \<Rightarrow> vulnerability" where
  "example_vuln vid rid st =
     \<lparr>vuln_id = vid, vuln_title = ''SQL Injection vulnerability in Spring Security'',
      severity = ''critical'', cvss = 9.8, vuln_repository = rid, repositoryId = rid,
      platform = ''GitHub'', package = ''spring-security-core'', version = ''5.7.2'',
      fixedIn = ''6.1.0'', vuln_status = st, discoveredDate = ''2024-01-01'',
      vuln_description = ''Authentication bypass through SQL injection in login endpoint''\<rparr>"

definition idle_state :: "vulnerability list \<Rightarrow> vulnerabilities_state" where
  "idle_state vs =
     \<lparr>scannedVulnerabilities = vs, isFixingVulnerability = None,
      errorDialog = \<lparr>dialog_open = False, dialog_error = [], dialog_repositoryName = None\<rparr>,
      toasts = []\<rparr>"

definition fix_succeeded :: fix_response where
  "fix_succeeded =
     FixReturned (Some \<lparr>fix_success = True,
                         pullRequestUrl = Some ''https://github.com/acme/widgets/pull/42'',
                         pullRequestNumber = Some 42\<rparr>) None"

definition example_repositories :: "repository list" where
  "example_repositories =
     [\<lparr>repo_id = ''r1'', repo_name = ''widgets'', repo_full_name = ''acme/widgets'', repo_language = Some ''Java''\<rparr>,
      \<lparr>repo_id = ''r2'', repo_name = ''gadgets'', repo_full_name = ''acme/gadgets'', repo_language = Some ''Java''\<rparr>]"

text \<open>Concrete activities.\<close>

definition example_activity :: "string \<Rightarrow> string \<Rightarrow> string \<Rightarrow> activity_source \<Rightarrow> activity_item" where
  "example_activity aid ttl stamp src =
     \<lparr>act_id = aid, act_type = Security, act_title = ttl,
      act_description = ''critical severity vulnerability in dependencies'',
      timestamp = stamp, act_status = StatusError, act_repository = Some ''widgets'',
      repository_id = Some ''r1'', source = Some src\<rparr>"


text \<open>Proof devices for the security scan: what one pass of the loop adds to the batch,
  and what the whole loop adds.\<close>

definition contribution :: "repository list \<Rightarrow> scan_response \<Rightarrow> string \<Rightarrow> vulnerability list" where
  "contribution repositories answer rid =
     (case find_first (\<lambda>r. repo_id r = rid) repositories of
        None \<Rightarrow> []
      | Some repo \<Rightarrow> (case reportedVulnerabilities repo answer of None \<Rightarrow> [] | Some vs \<Rightarrow> vs))"

fun contributions :: "repository list \<Rightarrow> (nat \<Rightarrow> string \<Rightarrow> scan_response) \<Rightarrow> nat \<Rightarrow> string list \<Rightarrow> vulnerability list" where
  "contributions repositories scanner k [] = []"
| "contributions repositories scanner k (rid # rest) =
     contribution repositories (scanner k rid) rid @ contributions repositories scanner (Suc k) rest"

text \<open>Proof device for the de-duplication: the entry kept for an id, given the entry
  already held for it and the activities still to come.\<close>

definition merged :: "activity_item option \<Rightarrow> activity_item list \<Rightarrow> string \<Rightarrow> activity_item option" where
  "merged held xs k =
     (case held of
        None \<Rightarrow> preferred xs k
      | Some e \<Rightarrow>
          if source e = Some Local
          then (case find_first (\<lambda>a. act_id a = k \<and> source a = Some Database) xs of
                  None \<Rightarrow> Some e
                | Some d \<Rightarrow> Some d)
          else Some e)"





section \<open>Proofs: version scan\<close>

lemma length_map_index: "length (map_index f xs) = length xs"
  by (simp add: map_index_def)

lemma nth_map_index: "i < length xs \<Longrightarrow> map_index f xs ! i = f i (xs ! i)"
  by (simp add: map_index_def nth_enumerate_eq)

lemma length_scanTechnology: "length (scanTechnology a k t st) = length st"
  by (simp add: scanTechnology_def length_map_index split: option.splits)

lemma nth_scanTechnology:
  "i < length st \<Longrightarrow> scanTechnology a k t st ! i =
     (if i = k then (st ! i)\<lparr>technologies := map (scanEntry a t) (technologies (st ! i))\<rparr> else st ! i)"
proof (cases "detectedVersion a")
  case None
  then have "scanEntry a t = (\<lambda>e. e)" by (auto simp: scanEntry_def)
  with None show ?thesis by (simp add: scanTechnology_def)
next
  case (Some cv)
  then have "scanEntry a t = updateTechnology t cv (computeNeedsUpdate t cv)"
    by (auto simp: scanEntry_def)
  with Some show ?thesis if "i < length st" using that
    by (simp add: scanTechnology_def nth_map_index)
qed

lemma length_scanTechnologies: "length (scanTechnologies detect k repo ts st) = length st"
  by (induction ts arbitrary: st) (simp_all add: length_scanTechnology)

lemma nth_scanTechnologies:
  "i < length st \<Longrightarrow> scanTechnologies detect k repo ts st ! i =
     (if i = k then (st ! i)\<lparr>technologies := map (scanEntries (detect k (repo_id repo)) ts) (technologies (st ! i))\<rparr> else st ! i)"
proof (induction ts arbitrary: st)
  case Nil
  then show ?case by simp
next
  case (Cons t ts)
  then show ?case
    by (simp add: length_scanTechnology nth_scanTechnology)
qed

lemma length_scanFrom: "length (scanFrom detect k repos st) = length st"
  by (induction repos arbitrary: k st)
     (simp_all add: markScanned_def markScanning_def length_map_index length_scanTechnologies)

lemma nth_scanFrom:
  "i < length st \<Longrightarrow> scanFrom detect k repos st ! i =
     (if k \<le> i \<and> i < k + length repos
      then scanItem (detect i (repo_id (repos ! (i - k)))) (st ! i) else st ! i)"
proof (induction repos arbitrary: k st)
  case Nil
  then show ?case by auto
next
  case (Cons repo repos)
  let ?st1 = "markScanned k (scanTechnologies detect k repo relevantTechnologies (markScanning k st))"
  have len: "length ?st1 = length st"
    by (simp add: markScanned_def markScanning_def length_map_index length_scanTechnologies)
  have one: "?st1 ! i = (if i = k then scanItem (detect k (repo_id repo)) (st ! i) else st ! i)"
    using Cons.prems
    by (simp add: markScanned_def markScanning_def length_map_index length_scanTechnologies
        nth_map_index nth_scanTechnologies scanItem_def)
  have "scanFrom detect k (repo # repos) st ! i = scanFrom detect (Suc k) repos ?st1 ! i"
    by simp
  also have "\<dots> = (if Suc k \<le> i \<and> i < Suc k + length repos
             then scanItem (detect i (repo_id (repos ! (i - Suc k)))) (?st1 ! i) else ?st1 ! i)"
    using Cons.prems len by (intro Cons.IH) simp
  finally show ?case
    using one by (auto simp: nth_Cons' Suc_diff_le simp del: scanFrom.simps)
qed

lemma scanEntry_fields [simp]:
  "tech_name (scanEntry a t e) = tech_name e"
  "latestVersion (scanEntry a t e) = latestVersion e"
  by (simp_all add: scanEntry_def updateTechnology_def split: option.splits)

lemma scanEntries_fields [simp]:
  "tech_name (scanEntries answers ts e) = tech_name e"
  "latestVersion (scanEntries answers ts e) = latestVersion e"
  by (induction ts arbitrary: e) simp_all

lemma scanEntries_other: "tech_name e \<notin> set ts \<Longrightarrow> scanEntries answers ts e = e"
  by (induction ts arbitrary: e) (auto simp: scanEntry_def updateTechnology_def split: option.splits)

lemma scanEntries_needsUpdate:
  "distinct ts \<Longrightarrow> tech_name e \<in> set ts \<Longrightarrow>
   needsUpdate (scanEntries answers ts e) =
     (case detectedVersion (answers (tech_name e)) of None \<Rightarrow> needsUpdate e
      | Some cv \<Rightarrow> computeNeedsUpdate (tech_name e) cv)"
proof (induction ts arbitrary: e)
  case Nil
  then show ?case by simp
next
  case (Cons t ts)
  show ?case
  proof (cases "tech_name e = t")
    case True
    with Cons.prems have "tech_name (scanEntry (answers t) t e) \<notin> set ts" by simp
    then have "scanEntries answers (t # ts) e = scanEntry (answers t) t e"
      by (simp add: scanEntries_other)
    with True show ?thesis
      by (simp add: scanEntry_def updateTechnology_def split: option.splits)
  next
    case False
    then have "scanEntry (answers t) t e = e"
      by (simp add: scanEntry_def updateTechnology_def split: option.splits)
    with False Cons show ?thesis by simp
  qed
qed

lemma detectedVersion_nonempty: "detectedVersion a = Some v \<Longrightarrow> v \<noteq> []"
  by (cases a rule: detectedVersion.cases) (auto split: if_splits option.splits)

lemma scanEntry_sound: "entry_sound e \<Longrightarrow> entry_sound (scanEntry a t e)"
  by (auto simp: entry_sound_def scanEntry_def updateTechnology_def
      split: option.splits dest: detectedVersion_nonempty)

lemma scanEntries_sound: "entry_sound e \<Longrightarrow> entry_sound (scanEntries answers ts e)"
  by (induction ts arbitrary: e) (simp_all add: scanEntry_sound)

lemma flags_sound_initializeScan: "flags_sound (initializeScan repositories)"
  by (auto simp: flags_sound_def initializeScan_def entry_sound_def)

lemma flags_sound_scanFrom:
  assumes "flags_sound st"
  shows "flags_sound (scanFrom detect k repos st)"
  unfolding flags_sound_def
proof (intro ballI)
  fix item e
  assume item: "item \<in> set (scanFrom detect k repos st)" and e: "e \<in> set (technologies item)"
  from item obtain i where i: "i < length st" and it: "item = scanFrom detect k repos st ! i"
    by (auto simp: in_set_conv_nth length_scanFrom)
  have src: "st ! i \<in> set st" using i by simp
  show "entry_sound e \<and> latestVersion e = latestVersionOf (availableVersionsOf (tech_name e))"
  proof (cases "k \<le> i \<and> i < k + length repos")
    case True
    with i it have "item = scanItem (detect i (repo_id (repos ! (i - k)))) (st ! i)"
      by (simp add: nth_scanFrom)
    with e obtain e0 where e0: "e0 \<in> set (technologies (st ! i))"
      and ee: "e = scanEntries (detect i (repo_id (repos ! (i - k)))) relevantTechnologies e0"
      by (auto simp: scanItem_def)
    from assms src e0 have "entry_sound e0 \<and> latestVersion e0 = latestVersionOf (availableVersionsOf (tech_name e0))"
      by (auto simp: flags_sound_def)
    with ee show ?thesis by (simp add: scanEntries_sound)
  next
    case False
    with i it have "item = st ! i" by (simp add: nth_scanFrom)
    with assms src e show ?thesis by (auto simp: flags_sound_def)
  qed
qed

lemma upgradeResultsOf_sound:
  assumes "flags_sound st" and "r \<in> set (upgradeResultsOf st)"
  shows "ur_currentVersion r \<in> set (availableVersionsOf (ur_technology r))
       \<and> ur_currentVersion r \<noteq> latestVersionOf (availableVersionsOf (ur_technology r))
       \<and> ur_targetVersion r = latestVersionOf (availableVersionsOf (ur_technology r))"
proof -
  from assms(2) obtain item e where item: "item \<in> set st" and e: "e \<in> set (technologies item)"
    and nu: "needsUpdate e" and r: "ur_currentVersion r = (case currentVersion e of None \<Rightarrow> [] | Some v \<Rightarrow> v)"
      "ur_technology r = tech_name e" "ur_targetVersion r = latestVersion e"
    by (auto simp: upgradeResultsOf_def)
  from assms(1) item e have "entry_sound e" "latestVersion e = latestVersionOf (availableVersionsOf (tech_name e))"
    by (auto simp: flags_sound_def)
  with nu r show ?thesis
    by (auto simp: entry_sound_def computeNeedsUpdate_def Let_def split: option.splits)
qed

lemma distinct_relevantTechnologies: "distinct relevantTechnologies"
  by (simp add: relevantTechnologies_def)

text \<open>
  What a scan from the freshly initialised state guarantees: a technology entry of
  repository \<open>i\<close> is flagged \<open>needsUpdate\<close> exactly when the detection call for that
  repository and technology yielded a version (no error, success, non-empty), that
  version is listed in the technology's catalogue of available versions, and it differs
  from the catalogue's first entry. Every upgrade result handed to the parent, by this
  scan or by the next one, carries a current version that is in the catalogue and is not
  the latest one, with the latest one as its target.
\<close>

lemma fresh_scan_flags_and_results:
  assumes first: "scanAllRepositories detect repositories False (initializeScan repositories) = Some (st, results)"
      and second: "scanAllRepositories detect' repositories False st = Some (st', results')"
  shows "(\<forall>i < length repositories. \<forall>e \<in> set (technologies (st ! i)).
            needsUpdate e \<longleftrightarrow>
              (\<exists>v. detectedVersion (detect i (repo_id (repositories ! i)) (tech_name e)) = Some v
                 \<and> v \<in> set (availableVersionsOf (tech_name e))
                 \<and> v \<noteq> latestVersionOf (availableVersionsOf (tech_name e))))
       \<and> (\<forall>r \<in> set (results @ results').
            ur_currentVersion r \<in> set (availableVersionsOf (ur_technology r))
          \<and> ur_currentVersion r \<noteq> latestVersionOf (availableVersionsOf (ur_technology r))
          \<and> ur_targetVersion r = latestVersionOf (availableVersionsOf (ur_technology r)))"
proof -
  have flags: "needsUpdate e \<longleftrightarrow>
              (\<exists>v. detectedVersion (detect i (repo_id (repositories ! i)) (tech_name e)) = Some v
                 \<and> v \<in> set (availableVersionsOf (tech_name e))
                 \<and> v \<noteq> latestVersionOf (availableVersionsOf (tech_name e)))"
    if i: "i < length repositories" and e: "e \<in> set (technologies (st ! i))" for i e
  proof -
  from first have st: "st = scanFrom detect 0 repositories (initializeScan repositories)"
    by (simp add: scanAllRepositories_def)
  have len: "length (initializeScan repositories) = length repositories"
    by (simp add: initializeScan_def)
  let ?answers = "detect i (repo_id (repositories ! i))"
  from i len have "st ! i = scanItem ?answers (initializeScan repositories ! i)"
    unfolding st by (simp add: nth_scanFrom)
  with e obtain e0 where e0: "e0 \<in> set (technologies (initializeScan repositories ! i))"
    and ee: "e = scanEntries ?answers relevantTechnologies e0"
    by (auto simp: scanItem_def)
  from e0 i have name: "tech_name e0 \<in> set relevantTechnologies" and nu0: "\<not> needsUpdate e0"
    by (auto simp: initializeScan_def)
  have "needsUpdate e = (case detectedVersion (?answers (tech_name e0)) of None \<Rightarrow> needsUpdate e0
      | Some cv \<Rightarrow> computeNeedsUpdate (tech_name e0) cv)"
    unfolding ee using name by (intro scanEntries_needsUpdate distinct_relevantTechnologies)
  moreover have "tech_name e = tech_name e0" by (simp add: ee)
  ultimately show ?thesis
    using nu0 by (auto simp: computeNeedsUpdate_def Let_def split: option.splits)
  qed
  have outs: "ur_currentVersion r \<in> set (availableVersionsOf (ur_technology r))
          \<and> ur_currentVersion r \<noteq> latestVersionOf (availableVersionsOf (ur_technology r))
          \<and> ur_targetVersion r = latestVersionOf (availableVersionsOf (ur_technology r))"
    if r: "r \<in> set (results @ results')" for r
  proof -
  from first have st: "st = scanFrom detect 0 repositories (initializeScan repositories)"
    and res: "results = upgradeResultsOf (initializeScan repositories)"
    by (simp_all add: scanAllRepositories_def)
  from second have res': "results' = upgradeResultsOf st"
    by (simp add: scanAllRepositories_def)
  have s0: "flags_sound (initializeScan repositories)" by (rule flags_sound_initializeScan)
  then have s1: "flags_sound st" unfolding st by (rule flags_sound_scanFrom)
  from r res res' have "r \<in> set (upgradeResultsOf (initializeScan repositories)) \<or> r \<in> set (upgradeResultsOf st)"
    by auto
  then show ?thesis
    using s0 s1 upgradeResultsOf_sound by blast
  qed
  from flags outs show ?thesis by blast
qed



text \<open>In every state that scans reach from the freshly initialised one (all of them
  satisfy \<open>flags_sound\<close>), an entry is flagged exactly when the version stored with it,
  the one last detected, is in the catalogue and is not its first entry.\<close>

lemma flags_follow_stored_version:
  assumes "flags_sound st" and "item \<in> set st" and "e \<in> set (technologies item)"
  shows "needsUpdate e \<longleftrightarrow>
           (\<exists>v. currentVersion e = Some v \<and> v \<noteq> []
              \<and> v \<in> set (availableVersionsOf (tech_name e))
              \<and> v \<noteq> latestVersionOf (availableVersionsOf (tech_name e)))"
  using assms
  by (auto simp: flags_sound_def entry_sound_def computeNeedsUpdate_def Let_def split: option.splits)



section \<open>Proofs: Vulnerabilities page\<close>

text \<open>
  Claim C1, as the code has it. \<open>handleScanResults\<close> takes no completeness flag and
  resolves nothing: whatever the batch is, the list of findings becomes the batch. A
  finding that the batch omits is no longer in the list, a finding that the batch holds
  has the batch's fields and status, and nothing else of the state changes (no
  notification is emitted).
\<close>

theorem scan_results_replace_store:
  "scannedVulnerabilities (handleScanResults results s) = results
   \<and> filter (\<lambda>v. vuln_id v \<notin> vuln_id ` set results) (scannedVulnerabilities (handleScanResults results s)) = []
   \<and> isFixingVulnerability (handleScanResults results s) = isFixingVulnerability s
   \<and> errorDialog (handleScanResults results s) = errorDialog s
   \<and> toasts (handleScanResults results s) = toasts s"
  by (simp add: handleScanResults_def filter_empty_conv)

text \<open>
  Claim C1 fails as stated: with findings A, B and C open and a re-scan that reports A
  and C, the list afterwards is A and C; B has not become \<open>resolved\<close>, and it has not
  kept its status either: it is gone.
\<close>

theorem complete_rescan_counterexample:
  "map vuln_id (scannedVulnerabilities
      (handleScanResults [example_vuln ''A'' ''r1'' ''open'', example_vuln ''C'' ''r1'' ''open'']
        (idle_state [example_vuln ''A'' ''r1'' ''open'', example_vuln ''B'' ''r1'' ''open'',
                     example_vuln ''C'' ''r1'' ''open'']))) = [''A'', ''C'']
   \<and> \<not> (\<exists>v \<in> set (scannedVulnerabilities
      (handleScanResults [example_vuln ''A'' ''r1'' ''open'', example_vuln ''C'' ''r1'' ''open'']
        (idle_state [example_vuln ''A'' ''r1'' ''open'', example_vuln ''B'' ''r1'' ''open'',
                     example_vuln ''C'' ''r1'' ''open'']))).
          vuln_id v = ''B'' \<and> (vuln_status v = ''resolved'' \<or> vuln_status v = ''open''))"
  by (simp add: handleScanResults_def idle_state_def example_vuln_def)

text \<open>
  Claim C3 at a failing input. Two repositories report the same advisory
  \<open>CVE-2024-1001\<close> (the scanner draws the findings of every Java repository from one
  table). A successful fix of the finding of repository \<open>r1\<close> shows one success notice
  with the pull request, and marks the finding of \<open>r2\<close> in-progress too, because the
  status update selects by \<open>v.id === vuln.id\<close> alone.
\<close>

theorem fix_marks_same_id_in_other_repository:
  "map (\<lambda>v. (repositoryId v, vuln_status v))
     (scannedVulnerabilities
       (handleFixVulnerability example_repositories (example_vuln ''CVE-2024-1001'' ''r1'' ''open'') fix_succeeded
         (idle_state [example_vuln ''CVE-2024-1001'' ''r1'' ''open'',
                      example_vuln ''CVE-2024-1001'' ''r2'' ''open''])))
   = [(''r1'', ''in-progress''), (''r2'', ''in-progress'')]
   \<and> toasts (handleFixVulnerability example_repositories (example_vuln ''CVE-2024-1001'' ''r1'' ''open'') fix_succeeded
         (idle_state [example_vuln ''CVE-2024-1001'' ''r1'' ''open'',
                      example_vuln ''CVE-2024-1001'' ''r2'' ''open'']))
     = [ToastCreatingFix ''spring-security-core'',
        ToastFixCreated (Some 42) ''spring-security-core'' (Some ''https://github.com/acme/widgets/pull/42'')]"
  by (simp add: handleFixVulnerability_def handleFixVulnerability_settle_def handleFixVulnerability_begin_def
      markInProgress_def fix_succeeded_def idle_state_def example_vuln_def)

text \<open>Where the ids of the list are distinct, a successful fix changes the finding it was
  requested for and nothing else.\<close>

lemma fix_success_with_distinct_ids:
  assumes "fixOutcome response = Inr d"
    and "distinct (map vuln_id (scannedVulnerabilities s))"
    and "vuln \<in> set (scannedVulnerabilities s)"
  shows "scannedVulnerabilities (handleFixVulnerability repositories vuln response s) =
           map (\<lambda>v. if v = vuln then v\<lparr>vuln_status := ''in-progress''\<rparr> else v) (scannedVulnerabilities s)"
proof -
  have "vuln_id v = vuln_id vuln \<longleftrightarrow> v = vuln" if "v \<in> set (scannedVulnerabilities s)" for v
    using that assms(2,3) by (auto simp: distinct_map inj_on_def)
  then have "markInProgress vuln (scannedVulnerabilities s) =
      map (\<lambda>v. if v = vuln then v\<lparr>vuln_status := ''in-progress''\<rparr> else v) (scannedVulnerabilities s)"
    unfolding markInProgress_def by (intro map_cong) simp_all
  with assms(1) show ?thesis
    by (simp add: handleFixVulnerability_def handleFixVulnerability_settle_def
        handleFixVulnerability_begin_def)
qed

text \<open>
  Claim C7 at a failing input. \<open>isFixingVulnerability\<close> holds one id. After a click on
  "Fix Now" for \<open>CVE-2024-1001\<close> and, before its answer arrives, a click for
  \<open>CVE-2024-1002\<close>, the button of \<open>CVE-2024-1001\<close> is enabled again (its status is still
  \<open>open\<close>), and a third click starts a second request for it: all three clicks are
  accepted, no answer having arrived.
\<close>

theorem second_fix_request_accepted_while_pending:
  "Option.bind (Option.bind
      (clickFix (example_vuln ''CVE-2024-1001'' ''r1'' ''open'')
         (idle_state [example_vuln ''CVE-2024-1001'' ''r1'' ''open'', example_vuln ''CVE-2024-1002'' ''r1'' ''open'']))
      (clickFix (example_vuln ''CVE-2024-1002'' ''r1'' ''open'')))
      (clickFix (example_vuln ''CVE-2024-1001'' ''r1'' ''open''))
   = Some \<lparr>scannedVulnerabilities = [example_vuln ''CVE-2024-1001'' ''r1'' ''open'', example_vuln ''CVE-2024-1002'' ''r1'' ''open''],
           isFixingVulnerability = Some ''CVE-2024-1001'',
           errorDialog = \<lparr>dialog_open = False, dialog_error = [], dialog_repositoryName = None\<rparr>,
           toasts = [ToastCreatingFix ''spring-security-core'', ToastCreatingFix ''spring-security-core'',
                     ToastCreatingFix ''spring-security-core'']\<rparr>"
  by (simp add: clickFix_def fixButton_def handleFixVulnerability_begin_def idle_state_def example_vuln_def)

text \<open>What the button does guarantee: a request starts only for a finding whose status is
  \<open>open\<close> and whose id is not the one in flight, and a second click right after the first
  is refused.\<close>

lemma fix_offered_only_when_open:
  "clickFix vuln s = Some s' \<Longrightarrow> vuln_status vuln = ''open'' \<and> isFixingVulnerability s \<noteq> Some (vuln_id vuln)"
  by (auto simp: clickFix_def fixButton_def split: if_splits)

lemma immediate_second_click_rejected:
  "clickFix vuln s = Some s' \<Longrightarrow> clickFix vuln s' = None"
  by (auto simp: clickFix_def fixButton_def handleFixVulnerability_begin_def split: if_splits)

lemma getErrorDetails_title:
  "details_title (getErrorDetails err rn) =
     (if str_includes err ''Failed to create branch: Forbidden''
         \<or> str_includes err ''Resource not accessible by personal access token''
      then (if isExternalRepo rn then ''Cannot Fix External Repository'' else ''GitHub Token Permissions Error'')
      else if str_includes err ''Failed to create pull request: Unprocessable Entity''
      then ''Pull Request Creation Failed''
      else ''Vulnerability Fix Failed'')"
  by (simp add: getErrorDetails_def Let_def)

lemma getErrorDetails_solutions: "solutions (getErrorDetails err rn) \<noteq> []"
  by (simp add: getErrorDetails_def Let_def)

lemma requestFailure_403: "requestFailure 403 None = ''HTTP error! status: 403''"
  by (simp add: requestFailure_def or_else_def show_nat.simps)

lemma forbidden_reply_title:
  "details_title (getErrorDetails ''HTTP error! status: 403'' rn) = ''Vulnerability Fix Failed''"
  by (simp add: getErrorDetails_title)

text \<open>
  Claim C4, as the code has it. When the fix request fails (the promise rejects, or the
  answer carries no \<open>success\<close>), the list of findings is unchanged, so the finding stays
  \<open>open\<close> and nothing reaches in-progress. The failure is not stored as an action and
  nothing is returned to the caller: its message and the name of the repository are
  written into the one error dialog of the page, whatever that held. \<open>getErrorDetails\<close>
  has at least one solution for every message and chooses the title by the text of the
  message: a message that contains \<open>Failed to create branch: Forbidden\<close> or
  \<open>Resource not accessible by personal access token\<close> gets one of the two permission
  titles, one that contains \<open>Failed to create pull request: Unprocessable Entity\<close> the
  pull request title, every other message the generic title. A response that is not
  \<open>ok\<close> makes the API client throw; its message for a 403 without detail,
  \<open>HTTP error! status: 403\<close>, gets the generic title.
\<close>

theorem fix_failure_fills_error_dialog:
  assumes "fixOutcome response = Inl message"
  shows "let s' = handleFixVulnerability repositories vuln response s;
             details = getErrorDetails (dialog_error (errorDialog s')) (dialog_repositoryName (errorDialog s'))
         in scannedVulnerabilities s' = scannedVulnerabilities s
          \<and> toasts s' = toasts s @ [ToastCreatingFix (package vuln)]
          \<and> isFixingVulnerability s' = None
          \<and> errorDialog s' =
               \<lparr>dialog_open = True, dialog_error = message,
                dialog_repositoryName =
                  map_option repo_full_name (find_first (\<lambda>r. repo_id r = repositoryId vuln) repositories)\<rparr>
          \<and> solutions details \<noteq> []
          \<and> details_title details =
               (if str_includes message ''Failed to create branch: Forbidden''
                   \<or> str_includes message ''Resource not accessible by personal access token''
                then (if isExternalRepo (dialog_repositoryName (errorDialog s'))
                      then ''Cannot Fix External Repository'' else ''GitHub Token Permissions Error'')
                else if str_includes message ''Failed to create pull request: Unprocessable Entity''
                then ''Pull Request Creation Failed''
                else ''Vulnerability Fix Failed'')
          \<and> fixOutcome (fixVulnerability (ReplyNotOk status detail)) = Inl (requestFailure status detail)
          \<and> requestFailure 403 None = ''HTTP error! status: 403''
          \<and> details_title (getErrorDetails (requestFailure 403 None) rn) = ''Vulnerability Fix Failed''"
proof -
  let ?s' = "handleFixVulnerability repositories vuln response s"
  have dialog: "errorDialog ?s' =
      \<lparr>dialog_open = True, dialog_error = message,
       dialog_repositoryName =
         map_option repo_full_name (find_first (\<lambda>r. repo_id r = repositoryId vuln) repositories)\<rparr>"
    and rest: "scannedVulnerabilities ?s' = scannedVulnerabilities s"
      "toasts ?s' = toasts s @ [ToastCreatingFix (package vuln)]"
      "isFixingVulnerability ?s' = None"
    using assms
    by (simp_all add: handleFixVulnerability_def handleFixVulnerability_settle_def
        handleFixVulnerability_begin_def)
  have err: "dialog_error (errorDialog ?s') = message" by (simp add: dialog)
  have client: "fixOutcome (fixVulnerability (ReplyNotOk status detail)) = Inl (requestFailure status detail)"
    by simp
  have forbidden: "details_title (getErrorDetails (requestFailure 403 None) rn) = ''Vulnerability Fix Failed''"
    unfolding requestFailure_403 by (rule forbidden_reply_title)
  show ?thesis
    unfolding Let_def err
    using dialog rest getErrorDetails_solutions client forbidden requestFailure_403
    by (intro conjI) (simp_all add: getErrorDetails_title)
qed

theorem fix_failure_fills_error_dialog_witness:
  "fixOutcome (fixVulnerability (ReplyNotOk 403 None)) = Inl ''HTTP error! status: 403''
   \<and> map vuln_status (scannedVulnerabilities
        (handleFixVulnerability example_repositories (example_vuln ''CVE-2024-1001'' ''r1'' ''open'')
           (fixVulnerability (ReplyNotOk 403 None))
           (idle_state [example_vuln ''CVE-2024-1001'' ''r1'' ''open'']))) = [''open'']
   \<and> errorDialog
        (handleFixVulnerability example_repositories (example_vuln ''CVE-2024-1001'' ''r1'' ''open'')
           (fixVulnerability (ReplyNotOk 403 None))
           (idle_state [example_vuln ''CVE-2024-1001'' ''r1'' ''open'']))
       = \<lparr>dialog_open = True, dialog_error = ''HTTP error! status: 403'',
          dialog_repositoryName = Some ''acme/widgets''\<rparr>"
proof -
  let ?v = "example_vuln ''CVE-2024-1001'' ''r1'' ''open''"
  let ?r = "fixVulnerability (ReplyNotOk 403 None)"
  have h: "fixOutcome ?r = Inl ''HTTP error! status: 403''"
    by (simp add: requestFailure_403)
  note inst = fix_failure_fills_error_dialog [OF h, of example_repositories ?v "idle_state [?v]", unfolded Let_def]
  have "scannedVulnerabilities (handleFixVulnerability example_repositories ?v ?r (idle_state [?v]))
        = scannedVulnerabilities (idle_state [?v])"
    by (rule inst [THEN conjunct1])
  then have k: "map vuln_status (scannedVulnerabilities (handleFixVulnerability example_repositories ?v ?r
        (idle_state [?v]))) = [''open'']"
    by (simp add: idle_state_def example_vuln_def)
  have "errorDialog (handleFixVulnerability example_repositories ?v ?r (idle_state [?v])) =
      \<lparr>dialog_open = True, dialog_error = ''HTTP error! status: 403'',
       dialog_repositoryName =
         map_option repo_full_name (find_first (\<lambda>r. repo_id r = repositoryId ?v) example_repositories)\<rparr>"
    by (rule inst [THEN conjunct2, THEN conjunct2, THEN conjunct2, THEN conjunct1])
  then have d: "errorDialog (handleFixVulnerability example_repositories ?v ?r (idle_state [?v]))
       = \<lparr>dialog_open = True, dialog_error = ''HTTP error! status: 403'',
          dialog_repositoryName = Some ''acme/widgets''\<rparr>"
    by (simp add: example_repositories_def example_vuln_def)
  from h k d show ?thesis by (intro conjI)
qed

text \<open>
  Claim C4 fails as stated: when the fix service answers 403 without detail, the failure
  is shown under the generic title, not as a lack of permission; and after a second
  failed fix the error dialog holds the second failure only, so no record of the first is
  left.
\<close>

theorem forbidden_reply_counterexample:
  "details_title
     (getErrorDetails
        (dialog_error (errorDialog
           (handleFixVulnerability example_repositories (example_vuln ''CVE-2024-1001'' ''r1'' ''open'')
              (fixVulnerability (ReplyNotOk 403 None))
              (idle_state [example_vuln ''CVE-2024-1001'' ''r1'' ''open'']))))
        (dialog_repositoryName (errorDialog
           (handleFixVulnerability example_repositories (example_vuln ''CVE-2024-1001'' ''r1'' ''open'')
              (fixVulnerability (ReplyNotOk 403 None))
              (idle_state [example_vuln ''CVE-2024-1001'' ''r1'' ''open''])))))
     = ''Vulnerability Fix Failed''
   \<and> dialog_error (errorDialog
        (handleFixVulnerability example_repositories (example_vuln ''CVE-2024-1001'' ''r1'' ''open'')
           (fixVulnerability (ReplyNotOk 403 None))
           (idle_state [example_vuln ''CVE-2024-1001'' ''r1'' ''open''])))
     = ''HTTP error! status: 403''
   \<and> errorDialog
        (handleFixVulnerability example_repositories (example_vuln ''CVE-2024-1002'' ''r2'' ''open'')
           (FixThrew ''Failed to create branch: Forbidden'')
           (handleFixVulnerability example_repositories (example_vuln ''CVE-2024-1001'' ''r1'' ''open'')
              (fixVulnerability (ReplyNotOk 403 None))
              (idle_state [example_vuln ''CVE-2024-1001'' ''r1'' ''open'',
                           example_vuln ''CVE-2024-1002'' ''r2'' ''open''])))
     = \<lparr>dialog_open = True, dialog_error = ''Failed to create branch: Forbidden'',
        dialog_repositoryName = Some ''acme/gadgets''\<rparr>"
  by (simp add: handleFixVulnerability_def handleFixVulnerability_settle_def handleFixVulnerability_begin_def
      requestFailure_403 forbidden_reply_title example_repositories_def example_vuln_def idle_state_def)

lemma length_markInProgress: "length (markInProgress vuln prev) = length prev"
  by (simp add: markInProgress_def)

lemma nth_markInProgress:
  "i < length prev \<Longrightarrow> markInProgress vuln prev ! i =
     (if vuln_id (prev ! i) = vuln_id vuln then (prev ! i)\<lparr>vuln_status := ''in-progress''\<rparr> else prev ! i)"
  by (simp add: markInProgress_def)

lemma settle_list:
  "scannedVulnerabilities (handleFixVulnerability_settle repositories vuln response s) =
     (case fixOutcome response of Inl message \<Rightarrow> scannedVulnerabilities s
      | Inr d \<Rightarrow> markInProgress vuln (scannedVulnerabilities s))"
  by (simp add: handleFixVulnerability_settle_def split: sum.splits)

text \<open>
  Claim C9, as the code has it. When the answer of a fix request arrives, the only
  status it can write is \<open>in-progress\<close>: every finding with another id is unchanged, no
  finding becomes \<open>open\<close> or \<open>resolved\<close> that was not so before, the finding the request
  was made for is in-progress after a success and keeps its status after a failure. The
  first part of the handler changes no finding, and it runs only for a finding whose
  status is \<open>open\<close>. A re-scan replaces the list, so every status becomes what the batch
  reports.
\<close>

theorem fix_status_moves:
  "let old = scannedVulnerabilities s;
       new = scannedVulnerabilities (handleFixVulnerability_settle repositories vuln response s)
   in length new = length old
    \<and> (\<forall>i < length old.
          (vuln_id (old ! i) \<noteq> vuln_id vuln \<longrightarrow> new ! i = old ! i)
        \<and> (vuln_status (new ! i) = vuln_status (old ! i) \<or> vuln_status (new ! i) = ''in-progress'')
        \<and> (vuln_status (new ! i) = ''open'' \<longrightarrow> vuln_status (old ! i) = ''open'')
        \<and> (vuln_status (new ! i) = ''resolved'' \<longrightarrow> vuln_status (old ! i) = ''resolved'')
        \<and> (old ! i = vuln \<longrightarrow> vuln_status (new ! i) =
              (case fixOutcome response of Inl message \<Rightarrow> vuln_status vuln | Inr d \<Rightarrow> ''in-progress'')))
    \<and> scannedVulnerabilities (handleFixVulnerability_begin vuln s) = old
    \<and> (\<forall>s1. clickFix vuln s = Some s1 \<longrightarrow> vuln_status vuln = ''open'')
    \<and> scannedVulnerabilities (handleScanResults results s) = results"
proof -
  let ?old = "scannedVulnerabilities s"
  let ?new = "scannedVulnerabilities (handleFixVulnerability_settle repositories vuln response s)"
  have len: "length ?new = length ?old"
    by (simp add: settle_list length_markInProgress split: sum.splits)
  have pointwise: "(vuln_id (?old ! i) \<noteq> vuln_id vuln \<longrightarrow> ?new ! i = ?old ! i)
        \<and> (vuln_status (?new ! i) = vuln_status (?old ! i) \<or> vuln_status (?new ! i) = ''in-progress'')
        \<and> (vuln_status (?new ! i) = ''open'' \<longrightarrow> vuln_status (?old ! i) = ''open'')
        \<and> (vuln_status (?new ! i) = ''resolved'' \<longrightarrow> vuln_status (?old ! i) = ''resolved'')
        \<and> (?old ! i = vuln \<longrightarrow> vuln_status (?new ! i) =
              (case fixOutcome response of Inl message \<Rightarrow> vuln_status vuln | Inr d \<Rightarrow> ''in-progress''))"
    if "i < length ?old" for i
    using that by (cases "fixOutcome response") (auto simp: settle_list nth_markInProgress)
  have start: "scannedVulnerabilities (handleFixVulnerability_begin vuln s) = ?old"
    by (simp add: handleFixVulnerability_begin_def)
  have gate: "vuln_status vuln = ''open''" if "clickFix vuln s = Some s1" for s1
    using that by (auto simp: clickFix_def fixButton_def split: if_splits)
  have rescan: "scannedVulnerabilities (handleScanResults results s) = results"
    by (simp add: handleScanResults_def)
  from len pointwise start gate rescan show ?thesis
    unfolding Let_def by blast
qed

theorem fix_status_moves_witness:
  "clickFix (example_vuln ''CVE-2024-1001'' ''r1'' ''open'')
      (idle_state [example_vuln ''CVE-2024-1001'' ''r1'' ''open'', example_vuln ''CVE-2024-1002'' ''r1'' ''resolved''])
     \<noteq> None
   \<and> map vuln_status (scannedVulnerabilities
        (handleFixVulnerability_settle example_repositories (example_vuln ''CVE-2024-1001'' ''r1'' ''open'') fix_succeeded
          (idle_state [example_vuln ''CVE-2024-1001'' ''r1'' ''open'',
                       example_vuln ''CVE-2024-1002'' ''r1'' ''resolved''])))
       = [''in-progress'', ''resolved'']"
proof -
  let ?x = "example_vuln ''CVE-2024-1001'' ''r1'' ''open''"
  let ?y = "example_vuln ''CVE-2024-1002'' ''r1'' ''resolved''"
  let ?s = "idle_state [?x, ?y]"
  let ?new = "scannedVulnerabilities (handleFixVulnerability_settle example_repositories ?x fix_succeeded ?s)"
  have old: "scannedVulnerabilities ?s = [?x, ?y]" by (simp add: idle_state_def)
  have ok: "fixOutcome fix_succeeded = Inr \<lparr>fix_success = True,
      pullRequestUrl = Some ''https://github.com/acme/widgets/pull/42'', pullRequestNumber = Some 42\<rparr>"
    by (simp add: fix_succeeded_def)
  have click: "clickFix ?x ?s \<noteq> None"
    by (simp add: clickFix_def fixButton_def idle_state_def example_vuln_def)
  note inst = fix_status_moves [of ?s example_repositories ?x fix_succeeded "[]", unfolded Let_def old]
  from inst have len: "length ?new = 2" by simp
  from inst have "0 < length [?x, ?y] \<longrightarrow> ([?x, ?y] ! 0 = ?x \<longrightarrow> vuln_status (?new ! 0) =
      (case fixOutcome fix_succeeded of Inl message \<Rightarrow> vuln_status ?x | Inr d \<Rightarrow> ''in-progress''))"
    by blast
  then have first: "vuln_status (?new ! 0) = ''in-progress''" by (simp add: ok)
  from inst have "1 < length [?x, ?y] \<longrightarrow> (vuln_id ([?x, ?y] ! 1) \<noteq> vuln_id ?x \<longrightarrow> ?new ! 1 = [?x, ?y] ! 1)"
    by blast
  then have second: "vuln_status (?new ! 1) = ''resolved''" by (simp add: example_vuln_def)
  from len obtain a b where ab: "?new = [a, b]"
    by (cases ?new; cases "tl ?new") (auto simp: length_Suc_conv)
  with first second have "map vuln_status ?new = [''in-progress'', ''resolved'']" by simp
  with click show ?thesis by (intro conjI)
qed

text \<open>
  Claim C9 fails as stated: a finding that a successful fix moved to in-progress is
  \<open>open\<close> again after a re-scan that reports it (the scanner reports every finding as
  \<open>open\<close>); this backward move is not the regression from \<open>resolved\<close> that the claim
  allows.
\<close>

theorem rescan_reopens_counterexample:
  "map vuln_status (scannedVulnerabilities
      (handleFixVulnerability example_repositories (example_vuln ''CVE-2024-1001'' ''r1'' ''open'') fix_succeeded
         (idle_state [example_vuln ''CVE-2024-1001'' ''r1'' ''open''])))
     = [''in-progress'']
   \<and> map vuln_status (scannedVulnerabilities
      (handleScanResults [example_vuln ''CVE-2024-1001'' ''r1'' ''open'']
        (handleFixVulnerability example_repositories (example_vuln ''CVE-2024-1001'' ''r1'' ''open'') fix_succeeded
           (idle_state [example_vuln ''CVE-2024-1001'' ''r1'' ''open'']))))
     = [''open'']"
  by (simp add: handleScanResults_def handleFixVulnerability_def handleFixVulnerability_settle_def
      handleFixVulnerability_begin_def markInProgress_def fix_succeeded_def idle_state_def example_vuln_def)

section \<open>Proofs: security scan and recent activity\<close>

lemma allResults_scanRepository:
  "allResults (scanRepository repositories answer rid run) = allResults run @ contribution repositories answer rid"
  by (simp add: scanRepository_def contribution_def Let_def split: option.splits)

lemma allResults_scanSelected:
  "allResults (scanSelected repositories scanner k ids run) = allResults run @ contributions repositories scanner k ids"
  by (induction ids arbitrary: k run) (simp_all add: allResults_scanRepository)

text \<open>
  Claim C2, as the code has it. When the query for the scan results fails,
  \<open>fetchRecentActivity\<close> replaces the feed, whatever it held: by the first 20 persisted
  activities, or by the single sample entry when there are none; it reports the fixed
  message \<open>Failed to fetch recent activity\<close> (the cause is only logged) and is no
  longer loading. In a security scan, a repository whose call throws adds nothing to the
  batch, the loop goes on, and the page's list of findings is then replaced by the batch
  that the other repositories gave.
\<close>

theorem failed_scan_falls_back:
  "fetchRecentActivity engine now parseDate (Some user) persistedActivities QueryFailed s =
     \<lparr>activities = (if persistedActivities = [] then [sample_activity] else take 20 persistedActivities),
      loading = False, fetch_error = Some ''Failed to fetch recent activity''\<rparr>
   \<and> contribution repositories ScanThrew rid = []
   \<and> scannedVulnerabilities (securityScanOnPage repositories scanner selectedRepositories page) =
       (if selectedRepositories = [] then scannedVulnerabilities page
        else contributions repositories scanner 0 selectedRepositories)"
  by (simp add: fetchRecentActivity_def contribution_def securityScanOnPage_def startSecurityScan_def
      handleScanResults_def allResults_scanSelected split: option.splits)

text \<open>
  Claim C2 fails as stated: after a failed query the feed that held one entry holds the
  sample entry instead, the error is the fixed message, and a security scan of one
  repository whose call throws leaves the page with no finding where it had one.
\<close>

theorem failed_scan_counterexample:
  "activities (fetchRecentActivity (\<lambda>cmp xs. xs) 0 (\<lambda>stamp. None) (Some ''u1'') [] QueryFailed
      \<lparr>activities = [example_activity ''CVE-2024-1001'' ''Critical vulnerability detected'' ''Just now'' Database],
       loading = False, fetch_error = None\<rparr>) = [sample_activity]
   \<and> sample_activity \<noteq> example_activity ''CVE-2024-1001'' ''Critical vulnerability detected'' ''Just now'' Database
   \<and> fetch_error (fetchRecentActivity (\<lambda>cmp xs. xs) 0 (\<lambda>stamp. None) (Some ''u1'') [] QueryFailed
      \<lparr>activities = [example_activity ''CVE-2024-1001'' ''Critical vulnerability detected'' ''Just now'' Database],
       loading = False, fetch_error = None\<rparr>) = Some ''Failed to fetch recent activity''
   \<and> scannedVulnerabilities (securityScanOnPage example_repositories (\<lambda>k rid. ScanThrew) [''r1'']
        (idle_state [example_vuln ''CVE-2024-1001'' ''r1'' ''open''])) = []"
  by (simp add: fetchRecentActivity_def sample_activity_def example_activity_def securityScanOnPage_def
      startSecurityScan_def handleScanResults_def allResults_scanRepository contribution_def
      example_repositories_def)

lemma find_first_append:
  "find_first p (xs @ ys) = (case find_first p xs of None \<Rightarrow> find_first p ys | Some x \<Rightarrow> Some x)"
  by (induction xs) simp_all

lemma find_first_None_iff: "find_first p xs = None \<longleftrightarrow> (\<forall>x \<in> set xs. \<not> p x)"
  by (induction xs) simp_all

lemma find_first_Some: "find_first p xs = Some x \<Longrightarrow> x \<in> set xs \<and> p x"
  by (induction xs) (auto split: if_splits)

lemma findIndex_None_iff: "findIndex p xs = None \<longleftrightarrow> find_first p xs = None"
  by (induction xs) (auto split: option.splits)

lemma findIndex_less: "findIndex p xs = Some i \<Longrightarrow> i < length xs"
  by (induction xs arbitrary: i) (auto split: if_splits option.splits)

lemma find_first_replace:
  "findIndex (\<lambda>a. act_id a = act_id x) acc = Some i \<Longrightarrow>
   find_first (\<lambda>a. act_id a = k) (acc[i := x]) =
     (if k = act_id x then Some x else find_first (\<lambda>a. act_id a = k) acc)"
proof (induction acc arbitrary: i)
  case Nil
  then show ?case by simp
next
  case (Cons a acc)
  show ?case
  proof (cases "act_id a = act_id x")
    case True
    with Cons.prems have "i = 0" by simp
    with True show ?thesis by auto
  next
    case False
    with Cons.prems obtain j where j: "findIndex (\<lambda>a. act_id a = act_id x) acc = Some j" "i = Suc j"
      by (auto split: option.splits)
    with False Cons.IH [OF j(1)] show ?thesis by auto
  qed
qed

lemma ids_replace:
  "findIndex (\<lambda>a. act_id a = act_id x) acc = Some i \<Longrightarrow> map act_id (acc[i := x]) = map act_id acc"
proof (induction acc arbitrary: i)
  case Nil
  then show ?case by simp
next
  case (Cons a acc)
  then show ?case
    by (cases "act_id a = act_id x") (auto split: option.splits)
qed

lemma find_first_dedupStep:
  "find_first (\<lambda>a. act_id a = k) (dedupStep acc x) =
     (if k = act_id x then
        (case find_first (\<lambda>a. act_id a = k) acc of
           None \<Rightarrow> Some x
         | Some e \<Rightarrow> if source x = Some Database \<and> source e = Some Local then Some x else Some e)
      else find_first (\<lambda>a. act_id a = k) acc)"
proof (cases "find_first (\<lambda>a. act_id a = act_id x) acc")
  case None
  then show ?thesis
    by (auto simp: dedupStep_def find_first_append split: option.splits)
next
  case (Some e)
  then obtain i where i: "findIndex (\<lambda>a. act_id a = act_id x) acc = Some i"
    using findIndex_None_iff [of "\<lambda>a. act_id a = act_id x" acc] by (cases "findIndex (\<lambda>a. act_id a = act_id x) acc") auto
  from Some i show ?thesis
    by (auto simp: dedupStep_def find_first_replace)
qed

lemma ids_dedupStep:
  "map act_id (dedupStep acc x) =
     (if act_id x \<in> set (map act_id acc) then map act_id acc else map act_id acc @ [act_id x])"
proof (cases "find_first (\<lambda>a. act_id a = act_id x) acc")
  case None
  then have "act_id x \<notin> set (map act_id acc)"
    by (auto simp: find_first_None_iff)
  with None show ?thesis by (simp add: dedupStep_def)
next
  case (Some e)
  then have "e \<in> set acc \<and> act_id e = act_id x"
    by (rule find_first_Some)
  then have "act_id x \<in> set (map act_id acc)"
    by (metis image_eqI list.set_map)
  moreover from Some obtain i where "findIndex (\<lambda>a. act_id a = act_id x) acc = Some i"
    using findIndex_None_iff [of "\<lambda>a. act_id a = act_id x" acc] by (cases "findIndex (\<lambda>a. act_id a = act_id x) acc") auto
  ultimately show ?thesis using Some
    by (simp add: dedupStep_def ids_replace)
qed

lemma find_first_foldl_dedupStep:
  "find_first (\<lambda>a. act_id a = k) (foldl dedupStep acc xs) = merged (find_first (\<lambda>a. act_id a = k) acc) xs k"
proof (induction xs arbitrary: acc)
  case Nil
  then show ?case by (simp add: merged_def preferred_def split: option.splits)
next
  case (Cons x xs)
  show ?case
    unfolding foldl_Cons Cons.IH find_first_dedupStep
    by (auto simp: merged_def preferred_def split: option.splits)
qed

lemma ids_foldl_dedupStep:
  "map act_id (foldl dedupStep acc xs) =
     foldl (\<lambda>seen k. if k \<in> set seen then seen else seen @ [k]) (map act_id acc) (map act_id xs)"
proof (induction xs arbitrary: acc)
  case Nil
  then show ?case by simp
next
  case (Cons x xs)
  show ?case
    unfolding foldl_Cons Cons.IH ids_dedupStep list.map by simp
qed

lemma first_occurrences_foldl:
  "distinct seen \<Longrightarrow>
   distinct (foldl (\<lambda>seen k. if k \<in> set seen then seen else seen @ [k]) seen ks)
   \<and> set (foldl (\<lambda>seen k. if k \<in> set seen then seen else seen @ [k]) seen ks) = set seen \<union> set ks"
  by (induction ks arbitrary: seen) auto

text \<open>
  Claim C5, as the code has it. The de-duplicated list has one entry per id, the ids in
  the order of their first occurrence; the entry kept for an id is the first one with
  that id, unless that one is local and a database entry with the same id follows, which
  then takes its place; the same activity given twice is kept once.
\<close>

theorem unique_activities:
  "distinct (map act_id (uniqueActivities xs))
   \<and> set (map act_id (uniqueActivities xs)) = set (map act_id xs)
   \<and> map act_id (uniqueActivities xs) = first_occurrences (map act_id xs)
   \<and> (\<forall>k. find_first (\<lambda>a. act_id a = k) (uniqueActivities xs) = preferred xs k)
   \<and> uniqueActivities [a, a] = [a]"
proof -
  have ids: "map act_id (uniqueActivities xs) = first_occurrences (map act_id xs)"
    by (simp add: uniqueActivities_def first_occurrences_def ids_foldl_dedupStep)
  have d: "distinct (first_occurrences (map act_id xs))
      \<and> set (first_occurrences (map act_id xs)) = set [] \<union> set (map act_id xs)"
    unfolding first_occurrences_def by (rule first_occurrences_foldl) simp
  have look: "find_first (\<lambda>a. act_id a = k) (uniqueActivities xs) = preferred xs k" for k
    by (simp add: uniqueActivities_def find_first_foldl_dedupStep merged_def)
  have twice: "uniqueActivities [a, a] = [a]"
    by (simp add: uniqueActivities_def dedupStep_def)
  from ids d look twice show ?thesis by simp
qed

text \<open>
  Claim C5 fails as stated: of a local activity followed by a database activity with the
  same id, the second is kept, not the first.
\<close>

theorem first_occurrence_counterexample:
  "uniqueActivities [example_activity ''CVE-2024-1001'' ''Security issue found'' ''Just now'' Local,
                     example_activity ''CVE-2024-1001'' ''Critical vulnerability detected'' ''Just now'' Database]
   = [example_activity ''CVE-2024-1001'' ''Critical vulnerability detected'' ''Just now'' Database]
   \<and> example_activity ''CVE-2024-1001'' ''Critical vulnerability detected'' ''Just now'' Database
     \<noteq> example_activity ''CVE-2024-1001'' ''Security issue found'' ''Just now'' Local"
  by (simp add: uniqueActivities_def dedupStep_def example_activity_def)

lemma length_insert_sorted: "length (insert_sorted cmp x ys) = Suc (length ys)"
  by (induction ys) simp_all

lemma set_insert_sorted: "set (insert_sorted cmp x ys) = insert x (set ys)"
  by (induction ys) auto

lemma length_stable_sorted: "length (stable_sorted cmp xs) = length xs"
  by (induction xs) (simp_all add: stable_sorted_def length_insert_sorted)

lemma set_stable_sorted: "set (stable_sorted cmp xs) = set xs"
  by (induction xs) (simp_all add: stable_sorted_def set_insert_sorted)



lemma consistentOn_times:
  assumes "\<forall>a \<in> set xs. timeOf now parseDate a \<noteq> None"
  shows "consistentOn (sortCompare (compareActivities now parseDate)) xs"
proof -
  have "sortCompare (compareActivities now parseDate) a b
      = the (timeOf now parseDate b) - the (timeOf now parseDate a)"
    if "a \<in> set xs" "b \<in> set xs" for a b
  proof -
    from assms that(1) obtain ta where ta: "timeOf now parseDate a = Some ta" by blast
    from assms that(2) obtain tb where tb: "timeOf now parseDate b = Some tb" by blast
    from ta tb show ?thesis by (simp add: sortCompare_def compareActivities_def)
  qed
  then show ?thesis
    by (simp add: consistentOn_def list_all_iff)
qed

lemma insert_sorted_insort_key:
  assumes "\<forall>a \<in> set (x # ys). timeOf now parseDate a \<noteq> None"
  shows "insert_sorted (sortCompare (compareActivities now parseDate)) x ys
       = insort_key (\<lambda>a. - the (timeOf now parseDate a)) x ys"
  using assms
proof (induction ys)
  case Nil
  then show ?case by simp
next
  case (Cons y ys)
  then obtain tx ty where "timeOf now parseDate x = Some tx" "timeOf now parseDate y = Some ty"
    by auto
  moreover from Cons have "insert_sorted (sortCompare (compareActivities now parseDate)) x ys
       = insort_key (\<lambda>a. - the (timeOf now parseDate a)) x ys" by simp
  moreover have "sortCompare (compareActivities now parseDate) x y \<le> 0 \<longleftrightarrow> - tx \<le> - ty"
    using calculation by (simp add: sortCompare_def compareActivities_def)
  ultimately show ?case by simp
qed

lemma stable_sorted_sort_key:
  assumes "\<forall>a \<in> set xs. timeOf now parseDate a \<noteq> None"
  shows "stable_sorted (sortCompare (compareActivities now parseDate)) xs
       = sort_key (\<lambda>a. - the (timeOf now parseDate a)) xs"
  using assms
proof (induction xs)
  case Nil
  then show ?case by (simp add: stable_sorted_def)
next
  case (Cons x xs)
  let ?c = "sortCompare (compareActivities now parseDate)"
  from Cons have ih: "stable_sorted ?c xs = sort_key (\<lambda>a. - the (timeOf now parseDate a)) xs"
    by simp
  have "stable_sorted ?c (x # xs) = insert_sorted ?c x (stable_sorted ?c xs)"
    by (simp add: stable_sorted_def)
  also have "\<dots> = insort_key (\<lambda>a. - the (timeOf now parseDate a)) x (stable_sorted ?c xs)"
    using Cons.prems by (intro insert_sorted_insort_key) (simp add: set_stable_sorted)
  finally show ?case by (simp add: ih)
qed

text \<open>Where every timestamp is a date, the feed is the first 20 entries of the list sorted
  stably by time, newest first, whatever the engine.\<close>

lemma dated_feed_is_sorted:
  assumes "\<forall>a \<in> set xs. timeOf now parseDate a \<noteq> None"
  shows "sortedActivities engine now parseDate xs
           = take 20 (sort_key (\<lambda>a. - the (timeOf now parseDate a)) xs)"
    and "sorted_wrt (\<lambda>a b. the (timeOf now parseDate b) \<le> the (timeOf now parseDate a))
           (sortedActivities engine now parseDate xs)"
proof -
  let ?f = "\<lambda>a. - the (timeOf now parseDate a)"
  show eq: "sortedActivities engine now parseDate xs = take 20 (sort_key ?f xs)"
    using assms by (simp add: sortedActivities_def js_sort_def consistentOn_times stable_sorted_sort_key)
  have "sorted (map ?f (sort_key ?f xs))" by (rule sorted_sort_key)
  then have "sorted_wrt (\<lambda>a b. ?f a \<le> ?f b) (sort_key ?f xs)"
    by (simp add: sorted_wrt_map)
  then have "sorted_wrt (\<lambda>a b. the (timeOf now parseDate b) \<le> the (timeOf now parseDate a)) (sort_key ?f xs)"
    by simp
  then show "sorted_wrt (\<lambda>a b. the (timeOf now parseDate b) \<le> the (timeOf now parseDate a))
      (sortedActivities engine now parseDate xs)"
    unfolding eq by (rule sorted_wrt_take)
qed



section \<open>Proofs: bulk coverage improvement\<close>














end
